theory Spec2Isabelle
  imports Main
begin

section \<open>Python string primitives used by the detector\<close>

text \<open>
  The text of a file is a \<open>string\<close>, one \<open>char\<close> per character of the decoded text that
  Python's text-mode file object hands to the program. Indices, line numbers and the
  results of \<open>str.find\<close> are Python integers, hence \<open>int\<close>.
\<close>

definition nl :: char where
  "nl = CHR ''\<newline>''"

text \<open>An index of a slice or of a search range: a negative one counts from the end, and
  the result is clamped to \<open>0 .. len\<close>.\<close>

definition adjust_index :: "int \<Rightarrow> int \<Rightarrow> int" where
  "adjust_index n i = (if i < 0 then max (i + n) 0 else min i n)"

text \<open>\<open>s[a:b]\<close>.\<close>

definition py_slice :: "string \<Rightarrow> int \<Rightarrow> int \<Rightarrow> string" where
  "py_slice s a b =
     (let n = int (length s); a' = adjust_index n a; b' = adjust_index n b
      in take (nat (b' - a')) (drop (nat a') s))"

text \<open>Position of the first (last) occurrence of a character in a string, or \<open>-1\<close>.\<close>

fun first_index :: "char \<Rightarrow> string \<Rightarrow> int" where
  "first_index c [] = - 1"
| "first_index c (x # xs) =
     (if x = c then 0
      else (let r = first_index c xs in if r < 0 then - 1 else r + 1))"

fun last_index :: "char \<Rightarrow> string \<Rightarrow> int" where
  "last_index c [] = - 1"
| "last_index c (x # xs) =
     (let r = last_index c xs
      in if 0 \<le> r then r + 1 else if x = c then 0 else - 1)"

text \<open>\<open>s.find(c, start)\<close> and \<open>s.rfind(c, start, end)\<close> for a one-character \<open>c\<close>.\<close>

definition py_find :: "string \<Rightarrow> char \<Rightarrow> int \<Rightarrow> int" where
  "py_find s c start =
     (let a = adjust_index (int (length s)) start;
          r = first_index c (drop (nat a) s)
      in if r < 0 then - 1 else a + r)"

definition py_rfind :: "string \<Rightarrow> char \<Rightarrow> int \<Rightarrow> int \<Rightarrow> int" where
  "py_rfind s c start end =
     (let n = int (length s); a = adjust_index n start; b = adjust_index n end;
          r = last_index c (take (nat (b - a)) (drop (nat a) s))
      in if r < 0 then - 1 else a + r)"

text \<open>
  The expression of line 90 of \<open>main.py\<close> that computes \<open>import_statement\<close> from the file's
  text and \<open>node.lineno\<close>:
  \<^verbatim>\<open>content[content.rfind('\n', 0, node.lineno - 1) + 1 : content.find('\n', node.lineno - 1)]
    if node.lineno > 1 else content[:content.find('\n', node.lineno - 1)]\<close>
\<close>

definition import_statement :: "string \<Rightarrow> int \<Rightarrow> string" where
  "import_statement content lineno =
     (if lineno > 1
      then py_slice content (py_rfind content nl 0 (lineno - 1) + 1)
                            (py_find content nl (lineno - 1))
      else py_slice content 0 (py_find content nl (lineno - 1)))"

section \<open>The syntax tree\<close>

text \<open>
  The nodes of Python's \<open>ast\<close> module, as far as the detector tells them apart:
  \<open>ast.Name\<close>, \<open>ast.Attribute\<close>, \<open>ast.Import\<close>, \<open>ast.ImportFrom\<close>, and every other
  node with its child nodes in the order of \<open>ast.iter_child_nodes\<close>. An \<open>ast.alias\<close>
  (here \<open>import_alias\<close>) is one name of an import statement. The \<open>ctx\<close> objects of
  names and attributes and the alias objects are also yielded by \<open>ast.walk\<close>, but they
  are leaves of none of the four classes the detector tests for, and are not nodes of
  the model; so an identifier counts the same whether it is read or assigned. The
  column offsets of an import node are read by the detector and never used.
\<close>

datatype import_alias = Alias (name: string) (asname: "string option")

datatype node =
    Name (ident: string)
  | Attribute (val: node) (attr: string)
  | Import (names: "import_alias list") (lineno: int)
  | ImportFrom (module: "string option") (names: "import_alias list") (lineno: int)
  | Other (fields: "node list")

fun iter_child_nodes :: "node \<Rightarrow> node list" where
  "iter_child_nodes (Name i) = []"
| "iter_child_nodes (Attribute v a) = [v]"
| "iter_child_nodes (Import ns l) = []"
| "iter_child_nodes (ImportFrom m ns l) = []"
| "iter_child_nodes (Other cs) = cs"

text \<open>
  \<open>ast.walk\<close>: a queue that starts with the root; the first node is taken off, its
  children are put at the end, and the node is yielded.
\<close>

definition todo_size :: "node list \<Rightarrow> nat" where
  "todo_size q = sum_list (map (\<lambda>n. Suc (size n)) q)"

lemma todo_size_eq: "todo_size q = sum_list (map size q) + length q"
  by (induction q) (simp_all add: todo_size_def)

lemma todo_size_children: "todo_size (iter_child_nodes n) \<le> size n"
  by (cases n) (simp_all add: todo_size_eq size_list_conv_sum_list)

lemma todo_size_append [simp]: "todo_size (p @ q) = todo_size p + todo_size q"
  by (simp add: todo_size_def)

lemma todo_size_Cons [simp]: "todo_size (n # q) = Suc (size n) + todo_size q"
  by (simp add: todo_size_def)

function walk_queue :: "node list \<Rightarrow> node list" where
  "walk_queue [] = []"
| "walk_queue (n # todo) = n # walk_queue (todo @ iter_child_nodes n)"
  by pat_completeness auto
termination
proof (relation "measure todo_size")
  show "wf (measure todo_size)" by simp
next
  fix n todo
  have "todo_size (iter_child_nodes n) \<le> size n" by (rule todo_size_children)
  then show "(todo @ iter_child_nodes n, n # todo) \<in> measure todo_size" by simp
qed

definition walk :: "node \<Rightarrow> node list" where
  "walk tree = walk_queue [tree]"


section \<open>Detection\<close>

text \<open>
  Lines 72 to 74: the loop that descends an attribute chain, putting \<open>.attr\<close> in front
  of the name collected so far (the variable \<open>name\<close>, here \<open>dotted\<close>). It returns the
  node it stops at and the name.
\<close>

fun attribute_chain :: "node \<Rightarrow> string \<Rightarrow> node \<times> string" where
  "attribute_chain (Attribute v a) dotted = attribute_chain v (''.'' @ a @ dotted)"
| "attribute_chain current_node dotted = (current_node, dotted)"

text \<open>The body of the loop of lines 65 to 78, for one node of the walk.\<close>

definition add_names :: "node \<Rightarrow> string set \<Rightarrow> string set" where
  "add_names node all_names =
     (case node of
        Name i \<Rightarrow> insert i all_names
      | Attribute v a \<Rightarrow>
          (case attribute_chain node [] of
             (Name i, dotted) \<Rightarrow> insert (i @ dotted) all_names
           | _ \<Rightarrow> all_names)
      | _ \<Rightarrow> all_names)"

definition collect_names :: "node \<Rightarrow> string set" where
  "collect_names tree = fold add_names (walk tree) {}"

text \<open>\<open>alias.asname or alias.name\<close>: the alias unless it is \<open>None\<close> or empty.\<close>

definition imported_name :: "import_alias \<Rightarrow> string" where
  "imported_name a =
     (case asname a of
        None \<Rightarrow> name a
      | Some s \<Rightarrow> if s = [] then name a else s)"

text \<open>The loop of lines 83 to 91 over the names of one import statement.\<close>

fun unused_names :: "string \<Rightarrow> string set \<Rightarrow> int \<Rightarrow> import_alias list \<Rightarrow> (int \<times> string) list" where
  "unused_names content all_names l [] = []"
| "unused_names content all_names l (a # as) =
     (if imported_name a \<notin> all_names
      then (l, import_statement content l) # unused_names content all_names l as
      else unused_names content all_names l as)"

definition audit_node :: "string \<Rightarrow> string set \<Rightarrow> node \<Rightarrow> (int \<times> string) list" where
  "audit_node content all_names node =
     (case node of
        Import ns l \<Rightarrow> unused_names content all_names l ns
      | ImportFrom m ns l \<Rightarrow> unused_names content all_names l ns
      | _ \<Rightarrow> [])"

text \<open>\<open>isinstance(node, (ast.Import, ast.ImportFrom))\<close>.\<close>

definition is_import :: "node \<Rightarrow> bool" where
  "is_import node = (case node of Import ns l \<Rightarrow> True | ImportFrom m ns l \<Rightarrow> True | _ \<Rightarrow> False)"

text \<open>
  The bindings of a tree: each import statement of the walk with each of its names,
  in the order in which the loops of lines 81 to 83 meet them; those for which line 91
  appends a record; and the record appended.
\<close>

definition bindings :: "node \<Rightarrow> (node \<times> import_alias) list" where
  "bindings tree = concat (map (\<lambda>n. map (Pair n) (names n)) (filter is_import (walk tree)))"

definition reported_bindings :: "node \<Rightarrow> (node \<times> import_alias) list" where
  "reported_bindings tree =
     filter (\<lambda>(n, a). imported_name a \<notin> collect_names tree) (bindings tree)"

definition record_of :: "string \<Rightarrow> node \<times> import_alias \<Rightarrow> int \<times> string" where
  "record_of content b = (lineno (fst b), import_statement content (lineno (fst b)))"

text \<open>Lines 64 to 92: what detection returns once the text is read and parsed.\<close>

definition unused_imports_of :: "string \<Rightarrow> node \<Rightarrow> (int \<times> string) list" where
  "unused_imports_of content tree =
     concat (map (audit_node content (collect_names tree)) (walk tree))"

section \<open>Files and the log\<close>

text \<open>
  A file has a text and may be unreadable or unwritable (missing permissions, a
  directory); a path maps to a file or to nothing. Opening raises
  \<open>FileNotFoundError\<close> or another \<open>OSError\<close> (\<open>IOError\<close> is the same class, and
  \<open>FileNotFoundError\<close> one of its subclasses). A write replaces the whole text: a write
  that fails half way is not modelled.

  The contents of a file are its characters as stored. The detector opens files in
  text mode with the default \<open>newline=None\<close>: on reading, \<open>\r\n\<close> and a lone \<open>\r\<close> become
  \<open>\n\<close>; on writing, each \<open>\n\<close> becomes \<open>os.linesep\<close>, the line separator of the platform
  (\<open>\n\<close> on POSIX, \<open>\r\n\<close> on Windows), which is part of the state.
\<close>

definition cr :: char where
  "cr = CHR 0x0D"

text \<open>Reading: the flag tells that the character before was a \<open>\r\<close>, already turned
  into \<open>\n\<close>, so that a \<open>\n\<close> right after it is dropped.\<close>

fun translate_newlines :: "bool \<Rightarrow> string \<Rightarrow> string" where
  "translate_newlines after_cr [] = []"
| "translate_newlines after_cr (c # cs) =
     (if c = cr then nl # translate_newlines True cs
      else if c = nl \<and> after_cr then translate_newlines False cs
      else c # translate_newlines False cs)"

definition universal_newlines :: "string \<Rightarrow> string" where
  "universal_newlines s = translate_newlines False s"

text \<open>Writing.\<close>

definition write_newlines :: "string \<Rightarrow> string \<Rightarrow> string" where
  "write_newlines linesep s = concat (map (\<lambda>c. if c = nl then linesep else [c]) s)"

datatype file_entry = File (contents: string) (readable: bool) (writable: bool)

datatype os_error = FileNotFoundError | OSError

type_synonym files = "string \<rightharpoonup> file_entry"

definition read_text :: "files \<Rightarrow> string \<Rightarrow> os_error + string" where
  "read_text fs filepath =
     (case fs filepath of
        None \<Rightarrow> Inl FileNotFoundError
      | Some f \<Rightarrow>
          if readable f then Inr (universal_newlines (contents f)) else Inl OSError)"

definition write_text :: "string \<Rightarrow> files \<Rightarrow> string \<Rightarrow> string \<Rightarrow> os_error + files" where
  "write_text linesep fs filepath s =
     (case fs filepath of
        None \<Rightarrow> Inr (fs(filepath \<mapsto> File (write_newlines linesep s) True True))
      | Some f \<Rightarrow>
          if writable f
          then Inr (fs(filepath \<mapsto> File (write_newlines linesep s) (readable f) True))
          else Inl OSError)"

text \<open>The calls of \<open>logging\<close>, one constructor per message, with the values it formats
  (the text of a caught exception apart).\<close>

datatype message =
    File_not_found string
  | Error_reading_file string
  | Syntax_error_in_file string
  | No_unused_imports_found
  | Dry_run_would_remove
  | Dry_run_line int string
  | Removed_unused_imports_from string
  | Removed_line int string
  | Error_writing_to_file string
  | File_does_not_exist string
  | No_py_extension string

record state =
  files :: files
  log :: "message list"
  linesep :: string

definition logging :: "message \<Rightarrow> state \<Rightarrow> state" where
  "logging m st = st\<lparr>log := log st @ [m]\<rparr>"

text \<open>\<open>str.strip()\<close>, with the whitespace characters among the first 256 code points.\<close>

definition py_isspace :: "char \<Rightarrow> bool" where
  "py_isspace c = ((of_char c :: nat) \<in> {9, 10, 11, 12, 13, 28, 29, 30, 31, 32, 133, 160})"

definition py_strip :: "string \<Rightarrow> string" where
  "py_strip s = rev (dropWhile py_isspace (rev (dropWhile py_isspace s)))"

text \<open>\<open>f.readlines()\<close>: the lines of a text, each with its terminator.\<close>

fun readlines :: "string \<Rightarrow> string list" where
  "readlines [] = []"
| "readlines (c # cs) =
     (if c = nl then [c] # readlines cs
      else (case readlines cs of [] \<Rightarrow> [[c]] | l # ls \<Rightarrow> (c # l) # ls))"

fun enumerate_from :: "int \<Rightarrow> 'a list \<Rightarrow> (int \<times> 'a) list" where
  "enumerate_from i [] = []"
| "enumerate_from i (x # xs) = (i, x) # enumerate_from (i + 1) xs"

section \<open>The two operations and the command line\<close>

text \<open>
  \<open>ast.parse\<close> is the parser of the Python library: a parameter \<open>parse\<close>, which gives
  the tree of a text, or \<open>None\<close> where \<open>ast.parse\<close> raises \<open>SyntaxError\<close>.
  \<open>find_unused_imports\<close> returns its pair and the new state.
\<close>

definition find_unused_imports ::
  "(string \<Rightarrow> node option) \<Rightarrow> state \<Rightarrow> string \<Rightarrow> bool
     \<Rightarrow> ((int \<times> string) list \<times> node option) \<times> state" where
  "find_unused_imports parse st filepath aggressive =
     (case read_text (files st) filepath of
        Inl FileNotFoundError \<Rightarrow> (([], None), logging (File_not_found filepath) st)
      | Inl OSError \<Rightarrow> (([], None), logging (Error_reading_file filepath) st)
      | Inr content \<Rightarrow>
          (case parse content of
             None \<Rightarrow> (([], None), logging (Syntax_error_in_file filepath) st)
           | Some tree \<Rightarrow> ((unused_imports_of content tree, Some tree), st)))"

definition lines_to_remove :: "(int \<times> string) list \<Rightarrow> int set" where
  "lines_to_remove unused_imports =
     fold (\<lambda>(line_number, import_statement). insert line_number) unused_imports {}"

definition new_lines :: "string list \<Rightarrow> int set \<Rightarrow> string list" where
  "new_lines lines to_remove =
     map snd (filter (\<lambda>(i, line). i \<notin> to_remove) (enumerate_from 1 lines))"

definition log_each :: "(int \<Rightarrow> string \<Rightarrow> message) \<Rightarrow> (int \<times> string) list \<Rightarrow> state \<Rightarrow> state" where
  "log_each msg unused_imports st =
     fold (\<lambda>(line_number, import_statement).
             logging (msg line_number (py_strip import_statement))) unused_imports st"

definition remove_unused_imports ::
  "state \<Rightarrow> string \<Rightarrow> (int \<times> string) list \<Rightarrow> bool \<Rightarrow> state" where
  "remove_unused_imports st filepath unused_imports dry_run =
     (if unused_imports = [] then logging No_unused_imports_found st
      else
        (case read_text (files st) filepath of
           Inl e \<Rightarrow> logging (Error_reading_file filepath) st
         | Inr content \<Rightarrow>
             (let lines = readlines content;
                  kept = new_lines lines (lines_to_remove unused_imports)
              in if dry_run
                 then log_each Dry_run_line unused_imports (logging Dry_run_would_remove st)
                 else
                   (case write_text (linesep st) (files st) filepath (concat kept) of
                      Inl e \<Rightarrow> logging (Error_writing_to_file filepath) st
                    | Inr fs \<Rightarrow>
                        log_each Removed_line unused_imports
                          (logging (Removed_unused_imports_from filepath)
                             (st\<lparr>files := fs\<rparr>))))))"

definition endswith :: "string \<Rightarrow> string \<Rightarrow> bool" where
  "endswith s suffix =
     (length suffix \<le> length s \<and> drop (length s - length suffix) s = suffix)"

text \<open>
  \<open>main\<close>, from the parsed arguments on; it returns the exit status of the process and
  the final state. None of the operations above raises in this model, so the handler
  of lines 162 to 165 has no branch here.
\<close>

definition main :: "(string \<Rightarrow> node option) \<Rightarrow> state \<Rightarrow> string \<Rightarrow> bool \<Rightarrow> bool \<Rightarrow> int \<times> state" where
  "main parse st filepath dry_run aggressive =
     (if files st filepath = None then (1, logging (File_does_not_exist filepath) st)
      else
        (let st1 = (if \<not> endswith filepath ''.py''
                    then logging (No_py_extension filepath) st else st);
             (result, st2) = find_unused_imports parse st1 filepath aggressive
         in (0, remove_unused_imports st2 filepath (fst result) dry_run)))"

section \<open>Breadth-first levels\<close>

text \<open>The nodes of a forest level by level: the roots, then their children, and so on,
  each level from left to right.\<close>

lemma todo_size_concat_children:
  "todo_size (concat (map iter_child_nodes q)) \<le> sum_list (map size q)"
proof (induction q)
  case Nil
  show ?case by (simp add: todo_size_def)
next
  case (Cons n q)
  have "todo_size (iter_child_nodes n) \<le> size n" by (rule todo_size_children)
  with Cons show ?case by simp
qed

function levels :: "node list \<Rightarrow> node list list" where
  "levels q = (if q = [] then [] else q # levels (concat (map iter_child_nodes q)))"
  by pat_completeness auto
termination
proof (relation "measure todo_size")
  show "wf (measure todo_size)" by simp
next
  fix q :: "node list"
  assume "q \<noteq> []"
  then have len: "1 \<le> length q" by (cases q) simp_all
  have le: "todo_size (concat (map iter_child_nodes q)) \<le> sum_list (map size q)"
    by (rule todo_size_concat_children)
  have "todo_size q = sum_list (map size q) + length q" by (rule todo_size_eq)
  with len le have "todo_size (concat (map iter_child_nodes q)) < todo_size q" by linarith
  then show "(concat (map iter_child_nodes q), q) \<in> measure todo_size" by simp
qed

declare levels.simps [simp del]

section \<open>A tree without the statements of some lines\<close>



section \<open>Sample files\<close>

text \<open>
  Texts of small Python files with the trees \<open>ast.parse\<close> gives for them (a constant is
  a node without children, a call has its function and then its arguments as
  children, a function definition its \<open>arguments\<close> node and then its body), and a text
  that is not valid Python. \<open>sample_parse\<close> is \<open>ast.parse\<close> on these texts; it serves
  the concrete examples only, the general theorems hold for any parser.
\<close>

definition assign_import_text :: string where
  "assign_import_text = ''x = 1\<newline>import os\<newline>''"

definition assign_import_tree :: node where
  "assign_import_tree = Other [Other [Name ''x'', Other []], Import [Alias ''os'' None] 2]"

definition nested_import_text :: string where
  "nested_import_text = ''def f():\<newline>    import a\<newline>import b\<newline>''"

definition nested_import_tree :: node where
  "nested_import_tree =
     Other [Other [Other [], Import [Alias ''a'' None] 2], Import [Alias ''b'' None] 3]"

definition print_getcwd :: node where
  "print_getcwd = Other [Other [Name ''print'', Other [Attribute (Name ''os'') ''getcwd'']]]"

definition shared_line_text :: string where
  "shared_line_text = ''import os\<newline>import sys; print(os.getcwd())\<newline>''"

definition shared_line_tree :: node where
  "shared_line_tree =
     Other [Import [Alias ''os'' None] 1, Import [Alias ''sys'' None] 2, print_getcwd]"

definition only_import_text :: string where
  "only_import_text = ''import os\<newline>''"

definition only_import_tree :: node where
  "only_import_tree = Other [Import [Alias ''os'' None] 1]"

definition alias_text :: string where
  "alias_text = ''import numpy as np\<newline>x = 1\<newline>''"

definition alias_tree :: node where
  "alias_tree =
     Other [Import [Alias ''numpy'' (Some ''np'')] 1, Other [Name ''x'', Other []]]"

definition assign_text :: string where
  "assign_text = ''x = 1\<newline>''"

definition assign_tree :: node where
  "assign_tree = Other [Other [Name ''x'', Other []]]"

definition two_names_text :: string where
  "two_names_text = ''import os, sys\<newline>print(os.getcwd())\<newline>''"

definition two_names_tree :: node where
  "two_names_tree =
     Other [Import [Alias ''os'' None, Alias ''sys'' None] 1, print_getcwd]"

definition used_alias_text :: string where
  "used_alias_text = ''import os as o\<newline>print(o.getcwd())\<newline>''"

definition used_alias_tree :: node where
  "used_alias_tree =
     Other [Import [Alias ''os'' (Some ''o'')] 1,
            Other [Other [Name ''print'', Other [Attribute (Name ''o'') ''getcwd'']]]]"

definition unused_sys_text :: string where
  "unused_sys_text = ''import sys\<newline>import os\<newline>print(os.getcwd())\<newline>''"

definition unused_sys_tree :: node where
  "unused_sys_tree =
     Other [Import [Alias ''sys'' None] 1, Import [Alias ''os'' None] 2, print_getcwd]"

definition alias_and_name_text :: string where
  "alias_and_name_text = ''import os as o, sys\<newline>print(o.getcwd())\<newline>''"

definition alias_and_name_tree :: node where
  "alias_and_name_tree =
     Other [Import [Alias ''os'' (Some ''o''), Alias ''sys'' None] 1,
            Other [Other [Name ''print'', Other [Attribute (Name ''o'') ''getcwd'']]]]"

definition import_assign_text :: string where
  "import_assign_text = ''import os\<newline>x = 1\<newline>''"

definition import_assign_tree :: node where
  "import_assign_tree = Other [Import [Alias ''os'' None] 1, Other [Name ''x'', Other []]]"

text \<open>The same file with \<open>\r\n\<close> at the end of each line.\<close>

definition import_assign_crlf :: string where
  "import_assign_crlf = ''import os'' @ [cr, nl] @ ''x = 1'' @ [cr, nl]"

definition used_os_text :: string where
  "used_os_text = ''import os\<newline>print(os.getcwd())\<newline>''"

definition used_os_tree :: node where
  "used_os_tree = Other [Import [Alias ''os'' None] 1, print_getcwd]"

definition invalid_text :: string where
  "invalid_text = ''import\<newline>''"

definition sample_parse :: "string \<Rightarrow> node option" where
  "sample_parse =
     map_of [(assign_import_text, assign_import_tree),
             (nested_import_text, nested_import_tree),
             (shared_line_text, shared_line_tree),
             (only_import_text, only_import_tree),
             (alias_text, alias_tree),
             (assign_text, assign_tree),
             (two_names_text, two_names_tree),
             (used_alias_text, used_alias_tree),
             (unused_sys_text, unused_sys_tree),
             (alias_and_name_text, alias_and_name_tree),
             (import_assign_text, import_assign_tree),
             (used_os_text, used_os_tree)]"

text \<open>A POSIX state with one readable and writable file \<open>m.py\<close> and an empty log.\<close>

definition on_disk :: "string \<Rightarrow> state" where
  "on_disk s = \<lparr>files = [''m.py'' \<mapsto> File s True True], log = [], linesep = [nl]\<rparr>"

section \<open>Logging and line bookkeeping\<close>

lemma files_logging [simp]: "files (logging m st) = files st"
  by (simp add: logging_def)

lemma log_logging [simp]: "log (logging m st) = log st @ [m]"
  by (simp add: logging_def)

lemma files_log_each [simp]: "files (log_each msg u st) = files st"
  unfolding log_each_def by (induction u arbitrary: st) (simp_all split: prod.splits)

lemma linesep_logging [simp]: "linesep (logging m st) = linesep st"
  by (simp add: logging_def)

lemma write_newlines_posix: "write_newlines [nl] s = s"
  by (induction s) (simp_all add: write_newlines_def)

lemma translate_newlines_no_cr: "cr \<notin> set s \<Longrightarrow> translate_newlines False s = s"
  by (induction s) auto

lemma universal_newlines_no_cr: "cr \<notin> set s \<Longrightarrow> universal_newlines s = s"
  by (simp add: universal_newlines_def translate_newlines_no_cr)

lemma fold_insert_fst:
  "fold (\<lambda>(line_number, import_statement). insert line_number) u S = S \<union> fst ` set u"
  by (induction u arbitrary: S) (auto split: prod.splits)

lemma lines_to_remove_eq: "lines_to_remove u = fst ` set u"
  by (simp add: lines_to_remove_def fold_insert_fst)

lemma kept_enumerate_nths:
  "map snd (filter (\<lambda>(i, line). i \<notin> R) (enumerate_from j xs)) = nths xs {k. j + int k \<notin> R}"
proof (induction xs arbitrary: j)
  case Nil
  show ?case by simp
next
  case (Cons x xs)
  have "\<And>k. j + int (Suc k) = j + 1 + int k" by simp
  then have "{k. j + int (Suc k) \<notin> R} = {k. j + 1 + int k \<notin> R}"
    by presburger
  with Cons [of "j + 1"] show ?case by (simp add: nths_Cons)
qed

lemma new_lines_nths: "new_lines lines R = nths lines {k. 1 + int k \<notin> R}"
  by (simp add: new_lines_def kept_enumerate_nths)

lemma concat_readlines: "concat (readlines s) = s"
  by (induction s) (auto split: list.splits)

section \<open>The aggressive flag\<close>

text \<open>
  C9: \<open>find_unused_imports\<close> returns the same list, the same tree and the same state
  for \<open>aggressive=True\<close> as for \<open>aggressive=False\<close>, whatever the file and the parser.
\<close>

theorem aggressive_inert:
  "find_unused_imports parse st filepath True = find_unused_imports parse st filepath False"
  by (simp add: find_unused_imports_def)

section \<open>Removal\<close>

text \<open>
  C5: with \<open>dry_run\<close> true, \<open>remove_unused_imports\<close> leaves every file as it was,
  for every state, path and list of records.
\<close>

theorem dry_run_keeps_files:
  "files (remove_unused_imports st filepath unused_imports True) = files st"
  by (simp add: remove_unused_imports_def Let_def split: sum.splits)

lemma removal_rewrite:
  assumes "u \<noteq> []"
    and "files st filepath = Some f" and "readable f" and "writable f"
  shows "files (remove_unused_imports st filepath u False) =
           (files st)(filepath \<mapsto>
              File (write_newlines (linesep st)
                      (concat (nths (readlines (universal_newlines (contents f)))
                                 {k. 1 + int k \<notin> fst ` set u})))
                   True True)
         \<and> (cr \<notin> set (contents f) \<and> linesep st = [nl] \<longrightarrow>
              files (remove_unused_imports st filepath u False) =
                (files st)(filepath \<mapsto>
                   File (concat (nths (readlines (contents f)) {k. 1 + int k \<notin> fst ` set u}))
                        True True))"
  using assms
  by (simp add: remove_unused_imports_def read_text_def write_text_def Let_def
      new_lines_nths lines_to_remove_eq write_newlines_posix universal_newlines_no_cr)

text \<open>
  C4, as stated, fails: on a POSIX platform, removing line 1 from a file whose lines
  end in \<open>\r\n\<close> leaves the second line with the terminator \<open>\n\<close>, not with its own.
\<close>

theorem crlf_terminators_rewritten:
  "fst (fst (find_unused_imports sample_parse (on_disk import_assign_crlf) ''m.py'' False))
     = [(1, ''import os'')]
   \<and> files (remove_unused_imports (on_disk import_assign_crlf) ''m.py''
               [(1, ''import os'')] False) ''m.py''
       = Some (File ''x = 1\<newline>'' True True)
   \<and> drop 11 import_assign_crlf = ''x = 1'' @ [cr, nl]
   \<and> ''x = 1\<newline>'' \<noteq> drop 11 import_assign_crlf"
  by code_simp

text \<open>
  C4, amended: for a non-empty list of records and a file that can be read and written,
  \<open>remove_unused_imports\<close> with \<open>dry_run\<close> false replaces the contents of the file by its
  lines as text mode reads them, in order, without the lines whose 1-based number is
  the line number of a record, each \<open>\n\<close> written as the line separator of the platform;
  no other file changes. When the file holds no \<open>\r\<close> and the separator is \<open>\n\<close>, these
  are the lines of the file itself, verbatim, terminators included.
\<close>

theorem removal_omits_reported_lines:
  assumes "unused_imports \<noteq> []"
    and "files st filepath = Some f" and "readable f" and "writable f"
  shows "files (remove_unused_imports st filepath unused_imports False) =
           (files st)(filepath \<mapsto>
              File (write_newlines (linesep st)
                      (concat (nths (readlines (universal_newlines (contents f)))
                                 {k. 1 + int k \<notin> fst ` set unused_imports})))
                   True True)
         \<and> (cr \<notin> set (contents f) \<and> linesep st = [nl] \<longrightarrow>
              files (remove_unused_imports st filepath unused_imports False) =
                (files st)(filepath \<mapsto>
                   File (concat (nths (readlines (contents f))
                                   {k. 1 + int k \<notin> fst ` set unused_imports}))
                        True True))"
  by (rule removal_rewrite [OF assms])

theorem removal_omits_reported_lines_witness:
  "[(1::int, ''import numpy as np'')] \<noteq> []
   \<and> files (on_disk alias_text) ''m.py'' = Some (File alias_text True True)
   \<and> cr \<notin> set alias_text
   \<and> linesep (on_disk alias_text) = [nl]
   \<and> files (remove_unused_imports (on_disk alias_text) ''m.py''
               [(1, ''import numpy as np'')] False) ''m.py''
       = Some (File ''x = 1\<newline>'' True True)"
proof -
  have f: "files (on_disk alias_text) ''m.py'' = Some (File alias_text True True)"
    by (simp add: on_disk_def)
  have c: "cr \<notin> set (contents (File alias_text True True))" by code_simp
  have l: "linesep (on_disk alias_text) = [nl]" by (simp add: on_disk_def)
  have k: "files (remove_unused_imports (on_disk alias_text) ''m.py''
               [(1, ''import numpy as np'')] False) ''m.py''
       = Some (File ''x = 1\<newline>'' True True)"
    by code_simp
  show ?thesis
    using removal_omits_reported_lines
            [where unused_imports = "[(1, ''import numpy as np'')]"
               and st = "on_disk alias_text" and filepath = "''m.py''"
               and f = "File alias_text True True", OF _ f] f c l k
    by simp
qed

section \<open>Syntax errors and files without imports\<close>

text \<open>
  C6: when the text of the file is not valid syntax, \<open>find_unused_imports\<close> logs the syntax
  error and returns an empty list and no tree; the whole run ends with exit status 0,
  has the syntax error in its log and leaves every file as it was.
\<close>

theorem syntax_error_reported:
  assumes "read_text (files st) filepath = Inr content" and "parse content = None"
  shows "find_unused_imports parse st filepath aggressive
           = (([], None), logging (Syntax_error_in_file filepath) st)
         \<and> fst (main parse st filepath dry_run aggressive) = 0
         \<and> files (snd (main parse st filepath dry_run aggressive)) = files st
         \<and> Syntax_error_in_file filepath
             \<in> set (log (snd (main parse st filepath dry_run aggressive)))"
proof -
  have found: "find_unused_imports parse st' filepath aggressive
           = (([], None), logging (Syntax_error_in_file filepath) st')"
    if "files st' = files st" for st'
    using assms that by (simp add: find_unused_imports_def)
  from assms(1) have ex: "files st filepath \<noteq> None"
    by (auto simp: read_text_def split: option.splits)
  show ?thesis
    using ex found [of st] found [of "logging (No_py_extension filepath) st"]
    by (simp add: main_def remove_unused_imports_def Let_def)
qed

theorem syntax_error_reported_witness:
  "read_text (files (on_disk invalid_text)) ''m.py'' = Inr invalid_text
   \<and> sample_parse invalid_text = None
   \<and> fst (find_unused_imports sample_parse (on_disk invalid_text) ''m.py'' False) = ([], None)
   \<and> fst (main sample_parse (on_disk invalid_text) ''m.py'' False False) = 0
   \<and> files (snd (main sample_parse (on_disk invalid_text) ''m.py'' False False))
       = files (on_disk invalid_text)
   \<and> log (snd (main sample_parse (on_disk invalid_text) ''m.py'' False False))
       = [Syntax_error_in_file ''m.py'', No_unused_imports_found]"
proof -
  have r: "read_text (files (on_disk invalid_text)) ''m.py'' = Inr invalid_text"
    by code_simp
  have p: "sample_parse invalid_text = None"
    by code_simp
  have l: "log (snd (main sample_parse (on_disk invalid_text) ''m.py'' False False))
       = [Syntax_error_in_file ''m.py'', No_unused_imports_found]"
    by code_simp
  show ?thesis
    using syntax_error_reported
            [where parse = sample_parse and content = invalid_text
               and st = "on_disk invalid_text" and filepath = "''m.py''"
               and aggressive = False and dry_run = False, OF r p] r p l
    by simp
qed

lemma unused_imports_of_no_import:
  assumes "\<forall>n \<in> set ns. \<not> is_import n"
  shows "concat (map (audit_node content S) ns) = []"
  using assms by (induction ns) (auto simp: audit_node_def is_import_def split: node.splits)

text \<open>
  C7: when the tree of the file has no import statement, \<open>find_unused_imports\<close> returns
  an empty list, \<open>remove_unused_imports\<close> on that list only logs that nothing was found,
  and the whole run leaves every file as it was.
\<close>

theorem no_imports_no_rewrite:
  assumes "read_text (files st) filepath = Inr content"
    and "parse content = Some tree"
    and "\<forall>n \<in> set (walk tree). \<not> is_import n"
  shows "fst (find_unused_imports parse st filepath aggressive) = ([], Some tree)
         \<and> remove_unused_imports st filepath [] dry_run = logging No_unused_imports_found st
         \<and> files (snd (main parse st filepath dry_run aggressive)) = files st"
proof -
  have none: "unused_imports_of content tree = []"
    unfolding unused_imports_of_def using assms(3) by (rule unused_imports_of_no_import)
  have found: "find_unused_imports parse st' filepath aggressive = (([], Some tree), st')"
    if "files st' = files st" for st'
    using assms(1,2) that none by (simp add: find_unused_imports_def)
  from assms(1) have ex: "files st filepath \<noteq> None"
    by (auto simp: read_text_def split: option.splits)
  show ?thesis
    using ex found [of st] found [of "logging (No_py_extension filepath) st"]
    by (simp add: main_def remove_unused_imports_def Let_def)
qed

theorem no_imports_no_rewrite_witness:
  "read_text (files (on_disk assign_text)) ''m.py'' = Inr assign_text
   \<and> sample_parse assign_text = Some assign_tree
   \<and> filter is_import (walk assign_tree) = []
   \<and> fst (find_unused_imports sample_parse (on_disk assign_text) ''m.py'' False)
       = ([], Some assign_tree)
   \<and> files (snd (main sample_parse (on_disk assign_text) ''m.py'' False False))
       = files (on_disk assign_text)"
proof -
  have r: "read_text (files (on_disk assign_text)) ''m.py'' = Inr assign_text"
    by code_simp
  have p: "sample_parse assign_text = Some assign_tree"
    by code_simp
  have w: "\<forall>n \<in> set (walk assign_tree). \<not> is_import n"
    by code_simp
  have f: "filter is_import (walk assign_tree) = []"
    by code_simp
  show ?thesis
    using no_imports_no_rewrite
            [where parse = sample_parse and content = assign_text and tree = assign_tree
               and st = "on_disk assign_text" and filepath = "''m.py''"
               and aggressive = False and dry_run = False, OF r p w] r p f
    by simp
qed

section \<open>The walk\<close>

text \<open>The walk of a queue is the queue followed by the walk of the children of its
  nodes; hence it is the concatenation of the levels, it contains the root, and it
  contains the children of each of its nodes.\<close>

lemma walk_queue_append:
  "walk_queue (xs @ ys) = xs @ walk_queue (ys @ concat (map iter_child_nodes xs))"
  by (induction xs arbitrary: ys) simp_all

lemma walk_queue_step: "walk_queue q = q @ walk_queue (concat (map iter_child_nodes q))"
  using walk_queue_append [of q "[]"] by simp

lemma walk_queue_levels: "walk_queue q = concat (levels q)"
proof (induction q rule: levels.induct)
  case (1 q)
  show ?case
  proof (cases "q = []")
    case True
    then show ?thesis by (simp add: levels.simps)
  next
    case False
    have "walk_queue q = q @ walk_queue (concat (map iter_child_nodes q))"
      by (rule walk_queue_step)
    also have "\<dots> = q @ concat (levels (concat (map iter_child_nodes q)))"
      using "1.IH" [OF False] by simp
    also have "\<dots> = concat (levels q)"
      using False by (subst (2) levels.simps) simp
    finally show ?thesis .
  qed
qed

lemma walk_queue_superset: "set q \<subseteq> set (walk_queue q)"
  by (subst walk_queue_step) simp

lemma walk_queue_closed:
  "n \<in> set (walk_queue q) \<Longrightarrow> set (iter_child_nodes n) \<subseteq> set (walk_queue q)"
proof (induction q arbitrary: n rule: walk_queue.induct)
  case 1
  then show ?case by simp
next
  case (2 m todo)
  show ?case
  proof (cases "n = m")
    case True
    have "set (iter_child_nodes m) \<subseteq> set (todo @ iter_child_nodes m)" by simp
    also have "\<dots> \<subseteq> set (walk_queue (todo @ iter_child_nodes m))"
      by (rule walk_queue_superset)
    finally show ?thesis using True by auto
  next
    case False
    with "2.prems" have "n \<in> set (walk_queue (todo @ iter_child_nodes m))" by simp
    from "2.IH" [OF this] show ?thesis by auto
  qed
qed

lemma walk_child:
  "n \<in> set (walk tree) \<Longrightarrow> c \<in> set (iter_child_nodes n) \<Longrightarrow> c \<in> set (walk tree)"
  using walk_queue_closed [of n "[tree]"] by (auto simp: walk_def)

lemma attribute_chain_in_walk:
  "n \<in> set (walk tree) \<Longrightarrow> attribute_chain n d = (r, d') \<Longrightarrow> r \<in> set (walk tree)"
proof (induction n d rule: attribute_chain.induct)
  case (1 v a dotted)
  from "1.prems"(1) have "v \<in> set (walk tree)" by (rule walk_child) simp
  with 1 show ?case by simp
qed simp_all

section \<open>Referenced names\<close>

lemma add_names_mono: "S \<subseteq> add_names n S"
  by (auto simp: add_names_def split: node.splits prod.splits)

lemma fold_add_names_mono: "S \<subseteq> fold add_names ns S"
proof (induction ns arbitrary: S)
  case Nil
  show ?case by simp
next
  case (Cons n ns)
  have "S \<subseteq> add_names n S" by (rule add_names_mono)
  also have "\<dots> \<subseteq> fold add_names ns (add_names n S)" by (rule Cons.IH)
  finally show ?case by simp
qed

lemma fold_add_names_Name: "Name x \<in> set ns \<Longrightarrow> x \<in> fold add_names ns S"
proof (induction ns arbitrary: S)
  case Nil
  then show ?case by simp
next
  case (Cons n ns)
  show ?case
  proof (cases "n = Name x")
    case True
    then have "x \<in> add_names n S" by (simp add: add_names_def)
    with fold_add_names_mono [of "add_names n S" ns] show ?thesis by auto
  next
    case False
    with Cons.prems have "Name x \<in> set ns" by simp
    from Cons.IH [OF this] show ?thesis by simp
  qed
qed

lemma Name_in_collect_names: "Name x \<in> set (walk tree) \<Longrightarrow> x \<in> collect_names tree"
  unfolding collect_names_def by (rule fold_add_names_Name)

lemma unused_names_map:
  "unused_names content S l ns
     = map (\<lambda>a. (l, import_statement content l)) (filter (\<lambda>a. imported_name a \<notin> S) ns)"
  by (induction ns) simp_all

lemma audit_node_bindings:
  "audit_node content S n
     = map (record_of content)
         (filter (\<lambda>(n, a). imported_name a \<notin> S)
            (if is_import n then map (Pair n) (names n) else []))"
  by (cases n)
    (simp_all add: audit_node_def is_import_def unused_names_map record_of_def
      filter_map comp_def)

lemma audit_nodes_bindings:
  "concat (map (audit_node content S) ns)
     = map (record_of content)
         (filter (\<lambda>(n, a). imported_name a \<notin> S)
            (concat (map (\<lambda>n. map (Pair n) (names n)) (filter is_import ns))))"
  by (induction ns) (simp_all add: audit_node_bindings)

lemma unused_imports_of_reported:
  "unused_imports_of content tree = map (record_of content) (reported_bindings tree)"
  by (simp add: unused_imports_of_def reported_bindings_def bindings_def audit_nodes_bindings)

text \<open>
  C3: the list that \<open>find_unused_imports\<close> returns holds one record for each reported
  binding and nothing else, and a binding is not among the reported ones when its
  effective local name (the alias unless absent or empty, else the imported name)
  is an identifier node of the tree or the root identifier of an attribute chain of
  the tree, whether or not the imported name itself occurs.
\<close>

theorem referenced_alias_not_reported:
  assumes "read_text (files st) filepath = Inr content" and "parse content = Some tree"
    and "m \<in> set (walk tree)"
    and "attribute_chain m dotted = (Name (imported_name a), d)"
  shows "fst (fst (find_unused_imports parse st filepath aggressive))
           = map (record_of content) (reported_bindings tree)
         \<and> (\<forall>n. (n, a) \<notin> set (reported_bindings tree))"
proof -
  from assms(3,4) have "Name (imported_name a) \<in> set (walk tree)"
    by (rule attribute_chain_in_walk)
  then have "imported_name a \<in> collect_names tree" by (rule Name_in_collect_names)
  then have "\<forall>n. (n, a) \<notin> set (reported_bindings tree)"
    by (simp add: reported_bindings_def)
  moreover have "fst (fst (find_unused_imports parse st filepath aggressive))
           = map (record_of content) (reported_bindings tree)"
    using assms(1,2) by (simp add: find_unused_imports_def unused_imports_of_reported)
  ultimately show ?thesis by simp
qed

theorem referenced_alias_not_reported_witness:
  "read_text (files (on_disk alias_and_name_text)) ''m.py'' = Inr alias_and_name_text
   \<and> sample_parse alias_and_name_text = Some alias_and_name_tree
   \<and> Attribute (Name ''o'') ''getcwd'' \<in> set (walk alias_and_name_tree)
   \<and> attribute_chain (Attribute (Name ''o'') ''getcwd'') []
       = (Name (imported_name (Alias ''os'' (Some ''o''))), ''.getcwd'')
   \<and> ''os'' \<notin> collect_names alias_and_name_tree
   \<and> bindings alias_and_name_tree
       = [(Import [Alias ''os'' (Some ''o''), Alias ''sys'' None] 1, Alias ''os'' (Some ''o'')),
          (Import [Alias ''os'' (Some ''o''), Alias ''sys'' None] 1, Alias ''sys'' None)]
   \<and> reported_bindings alias_and_name_tree
       = [(Import [Alias ''os'' (Some ''o''), Alias ''sys'' None] 1, Alias ''sys'' None)]
   \<and> fst (fst (find_unused_imports sample_parse (on_disk alias_and_name_text) ''m.py'' False))
       = [(1, ''import os as o, sys'')]"
proof -
  have r: "read_text (files (on_disk alias_and_name_text)) ''m.py'' = Inr alias_and_name_text"
    by code_simp
  have p: "sample_parse alias_and_name_text = Some alias_and_name_tree" by code_simp
  have w: "Attribute (Name ''o'') ''getcwd'' \<in> set (walk alias_and_name_tree)" by code_simp
  have c: "attribute_chain (Attribute (Name ''o'') ''getcwd'') []
       = (Name (imported_name (Alias ''os'' (Some ''o''))), ''.getcwd'')"
    by (simp add: imported_name_def)
  have o: "''os'' \<notin> collect_names alias_and_name_tree" by code_simp
  have b: "bindings alias_and_name_tree
       = [(Import [Alias ''os'' (Some ''o''), Alias ''sys'' None] 1, Alias ''os'' (Some ''o'')),
          (Import [Alias ''os'' (Some ''o''), Alias ''sys'' None] 1, Alias ''sys'' None)]"
    by code_simp
  have rb: "reported_bindings alias_and_name_tree
       = [(Import [Alias ''os'' (Some ''o''), Alias ''sys'' None] 1, Alias ''sys'' None)]"
    by code_simp
  have rec: "map (record_of alias_and_name_text)
               [(Import [Alias ''os'' (Some ''o''), Alias ''sys'' None] 1, Alias ''sys'' None)]
             = [(1, ''import os as o, sys'')]"
    by code_simp
  have t: "fst (fst (find_unused_imports sample_parse (on_disk alias_and_name_text)
                       ''m.py'' False))
             = map (record_of alias_and_name_text) (reported_bindings alias_and_name_tree)"
    using referenced_alias_not_reported
            [where parse = sample_parse and st = "on_disk alias_and_name_text"
               and filepath = "''m.py''" and aggressive = False, OF r p w c]
    by simp
  show ?thesis
    using r p w c o b rb t rec by simp
qed

section \<open>The text of a record\<close>

text \<open>
  C1: the record of an unused binding should pair the line number of the statement with
  the text of that line. For the file \<open>x = 1\<close>, \<open>import os\<close> the record of the import of
  line 2 carries the text \<open>x = 1\<close> of line 1: line 90 uses \<open>node.lineno - 1\<close> as a
  character offset into the text.
\<close>

theorem import_statement_is_not_the_line:
  "fst (fst (find_unused_imports sample_parse (on_disk assign_import_text) ''m.py'' False))
     = [(2, ''x = 1'')]
   \<and> readlines assign_import_text = [''x = 1\<newline>'', ''import os\<newline>'']"
  by code_simp

section \<open>The order of the records\<close>

text \<open>
  C2, as stated, fails: with an import inside a function on line 2 and an import at
  module level on line 3, the record of line 3 comes before the record of line 2.
\<close>

theorem nested_import_out_of_order:
  "map fst (fst (fst (find_unused_imports sample_parse (on_disk nested_import_text)
                        ''m.py'' False))) = [3, 2]
   \<and> \<not> sorted (map fst (fst (fst (find_unused_imports sample_parse
                        (on_disk nested_import_text) ''m.py'' False))))"
  by code_simp

lemma concat_map_concat:
  "concat (map f (concat xss)) = concat (map (\<lambda>xs. concat (map f xs)) xss)"
  by (induction xss) simp_all

text \<open>
  C2, amended: the records come in the breadth-first order of the tree. All records of
  the import statements at one nesting depth precede those of the statements one
  level deeper; within a depth they follow the order of the tree from left to right,
  and within a statement the order of its names.
\<close>

theorem records_in_level_order:
  assumes "read_text (files st) filepath = Inr content" and "parse content = Some tree"
  shows "fst (fst (find_unused_imports parse st filepath aggressive))
           = concat (map (\<lambda>level. concat (map (audit_node content (collect_names tree)) level))
                      (levels [tree]))"
  using assms
  by (simp add: find_unused_imports_def unused_imports_of_def walk_def walk_queue_levels
      concat_map_concat)

theorem records_in_level_order_witness:
  "read_text (files (on_disk nested_import_text)) ''m.py'' = Inr nested_import_text
   \<and> sample_parse nested_import_text = Some nested_import_tree
   \<and> levels [nested_import_tree]
       = [[nested_import_tree],
          [Other [Other [], Import [Alias ''a'' None] 2], Import [Alias ''b'' None] 3],
          [Other [], Import [Alias ''a'' None] 2]]
   \<and> fst (fst (find_unused_imports sample_parse (on_disk nested_import_text) ''m.py'' False))
       = [(3, ''def f():''), (2, ''def f():'')]"
proof -
  have r: "read_text (files (on_disk nested_import_text)) ''m.py'' = Inr nested_import_text"
    by code_simp
  have p: "sample_parse nested_import_text = Some nested_import_tree"
    by code_simp
  have l: "levels [nested_import_tree]
       = [[nested_import_tree],
          [Other [Other [], Import [Alias ''a'' None] 2], Import [Alias ''b'' None] 3],
          [Other [], Import [Alias ''a'' None] 2]]"
    by code_simp
  have c: "concat (map (\<lambda>level. concat (map (audit_node nested_import_text
                (collect_names nested_import_tree)) level))
             [[nested_import_tree],
              [Other [Other [], Import [Alias ''a'' None] 2], Import [Alias ''b'' None] 3],
              [Other [], Import [Alias ''a'' None] 2]])
           = [(3, ''def f():''), (2, ''def f():'')]"
    by code_simp
  show ?thesis
    using records_in_level_order
            [where parse = sample_parse and content = nested_import_text
               and tree = nested_import_tree and st = "on_disk nested_import_text"
               and filepath = "''m.py''" and aggressive = False, OF r p] r p l c
    by simp
qed

section \<open>A whole run\<close>

text \<open>Detection reads the files and changes only the log; what a run does to the files
  is what removal does with the list that detection returns.\<close>

lemma find_fst_cong:
  "files st' = files st \<Longrightarrow>
     fst (find_unused_imports parse st' filepath aggressive)
       = fst (find_unused_imports parse st filepath aggressive)"
  by (simp add: find_unused_imports_def split: sum.splits os_error.splits option.splits)

lemma files_find [simp]:
  "files (snd (find_unused_imports parse st filepath aggressive)) = files st"
  by (simp add: find_unused_imports_def split: sum.splits os_error.splits option.splits)

lemma linesep_find [simp]:
  "linesep (snd (find_unused_imports parse st filepath aggressive)) = linesep st"
  by (simp add: find_unused_imports_def split: sum.splits os_error.splits option.splits)

lemma files_remove_cong:
  "files st' = files st \<Longrightarrow> linesep st' = linesep st \<Longrightarrow>
     files (remove_unused_imports st' filepath u dry_run)
       = files (remove_unused_imports st filepath u dry_run)"
  by (simp add: remove_unused_imports_def Let_def split: sum.splits)

lemma main_files:
  assumes "files st filepath \<noteq> None"
  shows "files (snd (main parse st filepath dry_run aggressive))
           = files (remove_unused_imports st filepath
                      (fst (fst (find_unused_imports parse st filepath aggressive))) dry_run)"
proof -
  define st1 where "st1 = (if \<not> endswith filepath ''.py''
                    then logging (No_py_extension filepath) st else st)"
  have eq: "files st1 = files st" by (simp add: st1_def)
  obtain result st2 where f: "find_unused_imports parse st1 filepath aggressive = (result, st2)"
    by (cases "find_unused_imports parse st1 filepath aggressive")
  have r: "result = fst (find_unused_imports parse st filepath aggressive)"
    using find_fst_cong [OF eq, of parse filepath aggressive] f by simp
  have s: "files st2 = files st"
    using files_find [of parse st1 filepath aggressive] f eq by simp
  have "linesep st1 = linesep st" by (simp add: st1_def)
  then have t: "linesep st2 = linesep st"
    using linesep_find [of parse st1 filepath aggressive] f by simp
  have "main parse st filepath dry_run aggressive
          = (0, remove_unused_imports st2 filepath (fst result) dry_run)"
    using assms f by (simp add: main_def st1_def [symmetric])
  then show ?thesis using files_remove_cong [OF s t] r by simp
qed

lemma unused_names_lineno:
  "a \<in> set ns \<Longrightarrow> imported_name a \<notin> S \<Longrightarrow> l \<in> fst ` set (unused_names content S l ns)"
  by (induction ns) auto

lemma audit_node_lineno:
  assumes "is_import node" and "a \<in> set (names node)" and "imported_name a \<notin> S"
  shows "lineno node \<in> fst ` set (audit_node content S node)"
  using assms by (cases node) (simp_all add: is_import_def audit_node_def unused_names_lineno)

lemma unused_imports_of_lineno:
  assumes "node \<in> set (walk tree)" and "is_import node" and "a \<in> set (names node)"
    and "imported_name a \<notin> collect_names tree"
  shows "lineno node \<in> fst ` set (unused_imports_of content tree)"
proof -
  from assms(2-4) have "lineno node \<in> fst ` set (audit_node content (collect_names tree) node)"
    by (rule audit_node_lineno)
  with assms(1) show ?thesis by (auto simp: unused_imports_of_def)
qed

text \<open>
  C10: when an import statement of the file binds a name that is unused, the line
  number of the statement is among the reported ones, and a run without \<open>dry_run\<close>
  rewrites the file without the lines reported, hence without that whole line, together
  with the other names the statement binds there, referenced or not.
\<close>

theorem shared_line_removed:
  assumes "files st filepath = Some f" and "readable f" and "writable f"
    and "parse (universal_newlines (contents f)) = Some tree"
    and "node \<in> set (walk tree)" and "is_import node"
    and "a \<in> set (names node)" and "imported_name a \<notin> collect_names tree"
  shows "lineno node
           \<in> fst ` set (fst (fst (find_unused_imports parse st filepath aggressive)))
         \<and> files (snd (main parse st filepath False aggressive))
           = (files st)(filepath \<mapsto>
               File (write_newlines (linesep st)
                       (concat (nths (readlines (universal_newlines (contents f)))
                          {k. 1 + int k \<notin> fst ` set (fst (fst
                               (find_unused_imports parse st filepath aggressive)))})))
                    True True)
         \<and> (cr \<notin> set (contents f) \<and> linesep st = [nl] \<longrightarrow>
              files (snd (main parse st filepath False aggressive))
                = (files st)(filepath \<mapsto>
                    File (concat (nths (readlines (contents f))
                            {k. 1 + int k \<notin> fst ` set (fst (fst
                                 (find_unused_imports parse st filepath aggressive)))}))
                         True True))"
proof -
  let ?u = "fst (fst (find_unused_imports parse st filepath aggressive))"
  have u: "?u = unused_imports_of (universal_newlines (contents f)) tree"
    using assms(1,2,4) by (simp add: find_unused_imports_def read_text_def)
  have l: "lineno node \<in> fst ` set ?u"
    unfolding u using assms(5-8) by (rule unused_imports_of_lineno)
  then have ne: "?u \<noteq> []" by auto
  have m: "files (snd (main parse st filepath False aggressive))
          = files (remove_unused_imports st filepath ?u False)"
    using assms(1) by (simp add: main_files)
  show ?thesis
    unfolding m by (rule conjI [OF l removal_rewrite [OF ne assms(1-3)]])
qed

theorem shared_line_removed_witness:
  "files (on_disk two_names_text) ''m.py'' = Some (File two_names_text True True)
   \<and> sample_parse two_names_text = Some two_names_tree
   \<and> Import [Alias ''os'' None, Alias ''sys'' None] 1 \<in> set (walk two_names_tree)
   \<and> ''os'' \<in> collect_names two_names_tree
   \<and> ''sys'' \<notin> collect_names two_names_tree
   \<and> fst (fst (find_unused_imports sample_parse (on_disk two_names_text) ''m.py'' False))
       = [(1, ''import os, sys'')]
   \<and> files (snd (main sample_parse (on_disk two_names_text) ''m.py'' False False)) ''m.py''
       = Some (File ''print(os.getcwd())\<newline>'' True True)"
proof -
  let ?node = "Import [Alias ''os'' None, Alias ''sys'' None] 1"
  have f: "files (on_disk two_names_text) ''m.py'' = Some (File two_names_text True True)"
    by (simp add: on_disk_def)
  have p: "sample_parse (universal_newlines (contents (File two_names_text True True)))
             = Some two_names_tree"
    by code_simp
  have w: "?node \<in> set (walk two_names_tree)" by code_simp
  have i: "is_import ?node" by (simp add: is_import_def)
  have a: "Alias ''sys'' None \<in> set (names ?node)" by simp
  have n: "imported_name (Alias ''sys'' None) \<notin> collect_names two_names_tree" by code_simp
  have o: "''os'' \<in> collect_names two_names_tree" by code_simp
  have s: "''sys'' \<notin> collect_names two_names_tree" by code_simp
  have u: "fst (fst (find_unused_imports sample_parse (on_disk two_names_text) ''m.py'' False))
       = [(1, ''import os, sys'')]" by code_simp
  have q: "sample_parse two_names_text = Some two_names_tree" by code_simp
  have m: "files (snd (main sample_parse (on_disk two_names_text) ''m.py'' False False)) ''m.py''
       = Some (File ''print(os.getcwd())\<newline>'' True True)" by code_simp
  have t: "lineno ?node
           \<in> fst ` set (fst (fst (find_unused_imports sample_parse (on_disk two_names_text)
                                    ''m.py'' False)))"
    using shared_line_removed
            [where parse = sample_parse and st = "on_disk two_names_text"
               and filepath = "''m.py''" and aggressive = False, OF f _ _ p w i a n]
    by simp
  show ?thesis
    using t f q w o s u m by simp
qed

section \<open>Running twice\<close>




















end
